theory Spec2Isabelle
  imports Main "HOL-Library.Multiset"
begin

section \<open>Go strings\<close>

text \<open>
  A Go string is a sequence of bytes; \<^typ>\<open>string\<close> is a list of 8-bit characters.
  The functions of package \<open>strings\<close> that the scanner calls are written out here on
  bytes.  White space is what \<open>unicode.IsSpace\<close> accepts, each code point given by its
  UTF-8 encoding: the six ASCII characters, U+0085, U+00A0, U+1680, U+2000 to U+200A,
  U+2028, U+2029, U+202F, U+205F and U+3000.  Every one of these encodings starts with a
  byte that is never a continuation byte, so an occurrence of the bytes in a string is
  an occurrence of the code point for Go's decoder as well.
\<close>

definition HasPrefix :: "string \<Rightarrow> string \<Rightarrow> bool" where
  "HasPrefix s p = (take (length p) s = p)"

definition HasSuffix :: "string \<Rightarrow> string \<Rightarrow> bool" where
  "HasSuffix s p = (length p \<le> length s \<and> drop (length s - length p) s = p)"

definition space_runes :: "string list" where
  "space_runes =
     [[CHR 0x09], [CHR 0x0A], [CHR 0x0B], [CHR 0x0C], [CHR 0x0D], [CHR 0x20],
      [CHR 0xC2, CHR 0x85], [CHR 0xC2, CHR 0xA0],
      [CHR 0xE1, CHR 0x9A, CHR 0x80],
      [CHR 0xE2, CHR 0x80, CHR 0x80], [CHR 0xE2, CHR 0x80, CHR 0x81],
      [CHR 0xE2, CHR 0x80, CHR 0x82], [CHR 0xE2, CHR 0x80, CHR 0x83],
      [CHR 0xE2, CHR 0x80, CHR 0x84], [CHR 0xE2, CHR 0x80, CHR 0x85],
      [CHR 0xE2, CHR 0x80, CHR 0x86], [CHR 0xE2, CHR 0x80, CHR 0x87],
      [CHR 0xE2, CHR 0x80, CHR 0x88], [CHR 0xE2, CHR 0x80, CHR 0x89],
      [CHR 0xE2, CHR 0x80, CHR 0x8A],
      [CHR 0xE2, CHR 0x80, CHR 0xA8], [CHR 0xE2, CHR 0x80, CHR 0xA9],
      [CHR 0xE2, CHR 0x80, CHR 0xAF],
      [CHR 0xE2, CHR 0x81, CHR 0x9F],
      [CHR 0xE3, CHR 0x80, CHR 0x80]]"

text \<open>The number of bytes of the white space code point a string starts (ends) with,
  0 when it starts (ends) with none.\<close>

definition space_prefix :: "string \<Rightarrow> nat" where
  "space_prefix s = (case find (HasPrefix s) space_runes of None \<Rightarrow> 0 | Some r \<Rightarrow> length r)"

definition space_suffix :: "string \<Rightarrow> nat" where
  "space_suffix s = (case find (HasSuffix s) space_runes of None \<Rightarrow> 0 | Some r \<Rightarrow> length r)"

lemma space_prefix_le: "space_prefix s \<le> length s"
proof (cases "find (HasPrefix s) space_runes")
  case None
  then show ?thesis by (simp add: space_prefix_def)
next
  case (Some r)
  then have "HasPrefix s r" by (auto simp: find_Some_iff)
  then have "length r \<le> length s"
    by (metis HasPrefix_def length_take min.cobounded1)
  with Some show ?thesis by (simp add: space_prefix_def)
qed

lemma space_suffix_le: "space_suffix s \<le> length s"
proof (cases "find (HasSuffix s) space_runes")
  case None
  then show ?thesis by (simp add: space_suffix_def)
next
  case (Some r)
  then have "HasSuffix s r" by (auto simp: find_Some_iff)
  then have "length r \<le> length s" by (simp add: HasSuffix_def)
  with Some show ?thesis by (simp add: space_suffix_def)
qed

function TrimLeftSpace :: "string \<Rightarrow> string" where
  "TrimLeftSpace s = (if space_prefix s = 0 then s else TrimLeftSpace (drop (space_prefix s) s))"
  by pat_completeness auto
termination
proof (relation "measure length")
  show "wf (measure length)" by simp
next
  fix s :: string
  assume "space_prefix s \<noteq> 0"
  moreover have "space_prefix s \<le> length s" by (rule space_prefix_le)
  ultimately show "(drop (space_prefix s) s, s) \<in> measure length" by simp
qed

function TrimRightSpace :: "string \<Rightarrow> string" where
  "TrimRightSpace s =
     (if space_suffix s = 0 then s else TrimRightSpace (take (length s - space_suffix s) s))"
  by pat_completeness auto
termination
proof (relation "measure length")
  show "wf (measure length)" by simp
next
  fix s :: string
  assume "space_suffix s \<noteq> 0"
  moreover have "space_suffix s \<le> length s" by (rule space_suffix_le)
  ultimately show "(take (length s - space_suffix s) s, s) \<in> measure length" by simp
qed

declare TrimLeftSpace.simps [simp del] TrimRightSpace.simps [simp del]

definition TrimSpace :: "string \<Rightarrow> string" where
  "TrimSpace s = TrimRightSpace (TrimLeftSpace s)"

text \<open>\<open>strings.Index\<close>: the byte offset of the first occurrence of \<open>sep\<close>.\<close>

fun Index :: "string \<Rightarrow> string \<Rightarrow> nat option" where
  "Index [] sep = (if sep = [] then Some 0 else None)"
| "Index (c # cs) sep =
     (if HasPrefix (c # cs) sep then Some 0 else map_option Suc (Index cs sep))"

definition Contains :: "string \<Rightarrow> string \<Rightarrow> bool" where
  "Contains s substr = (Index s substr \<noteq> None)"

lemma Index_le: "Index s sep = Some i \<Longrightarrow> i + length sep \<le> length s"
proof (induction s arbitrary: i)
  case Nil
  then show ?case by (simp split: if_splits)
next
  case (Cons c cs)
  show ?case
  proof (cases "HasPrefix (c # cs) sep")
    case True
    then have "length sep \<le> length (c # cs)"
      by (metis HasPrefix_def length_take min.cobounded1)
    with True Cons.prems show ?thesis by simp
  next
    case False
    with Cons.prems obtain j where "Index cs sep = Some j" "i = Suc j" by auto
    with Cons.IH show ?thesis by simp
  qed
qed

text \<open>\<open>strings.Split\<close> with a separator that is not empty (the scanner splits on
  \<open>==\<close> and \<open>>=\<close> only): the pieces between the occurrences of the separator, found
  from left to right.  With an empty separator Go explodes the string into its UTF-8
  sequences; that case is outside this model, which returns the string whole.\<close>

function Split :: "string \<Rightarrow> string \<Rightarrow> string list" where
  "Split s sep =
     (if sep = [] then [s]
      else case Index s sep of
             None \<Rightarrow> [s]
           | Some i \<Rightarrow> take i s # Split (drop (i + length sep) s) sep)"
  by pat_completeness auto
termination
proof (relation "measure (\<lambda>(s, sep). length s)")
  show "wf (measure (\<lambda>(s, sep). length s))" by simp
next
  fix s sep :: string and i
  assume "sep \<noteq> []" and "Index s sep = Some i"
  then have "i + length sep \<le> length s" "0 < length sep" by (auto dest: Index_le)
  then have "length s - (i + length sep) < length s" by arith
  then show "((drop (i + length sep) s, sep), (s, sep)) \<in> measure (\<lambda>(s, sep). length s)"
    by simp
qed

declare Split.simps [simp del]

text \<open>\<open>strings.Fields\<close>: the maximal runs of bytes between white space.\<close>

function fields_from :: "string \<Rightarrow> string \<Rightarrow> string list" where
  "fields_from [] cur = (if cur = [] then [] else [rev cur])"
| "fields_from (c # cs) cur =
     (if space_prefix (c # cs) = 0 then fields_from cs (c # cur)
      else (if cur = [] then [] else [rev cur])
           @ fields_from (drop (space_prefix (c # cs)) (c # cs)) [])"
  by pat_completeness auto
termination
proof (relation "measure (\<lambda>(s, cur). length s)")
  show "wf (measure (\<lambda>(s, cur). length s))" by simp
next
  fix c :: char and cs cur :: string
  show "((cs, c # cur), (c # cs, cur)) \<in> measure (\<lambda>(s, cur). length s)" by simp
next
  fix c :: char and cs cur :: string
  assume "space_prefix (c # cs) \<noteq> 0"
  then show "((drop (space_prefix (c # cs)) (c # cs), []), (c # cs, cur))
      \<in> measure (\<lambda>(s, cur). length s)"
    by simp
qed

definition Fields :: "string \<Rightarrow> string list" where
  "Fields s = fields_from s []"

text \<open>\<open>strings.ToLower\<close> on the ASCII letters.  The two code points outside ASCII that
  Go lowers into ASCII (U+0130 to \<open>i\<close>, U+212A to \<open>k\<close>) give letters that no supported
  extension contains, so membership in the extension table is not affected.\<close>

definition lower_char :: "char \<Rightarrow> char" where
  "lower_char c =
     (if of_char c \<ge> (65::nat) \<and> of_char c \<le> (90::nat) then char_of (of_char c + (32::nat)) else c)"

definition ToLower :: "string \<Rightarrow> string" where
  "ToLower s = map lower_char s"

text \<open>\<open>filepath.Ext\<close> of a path whose last element is \<open>name\<close>: the suffix of the name
  beginning at its last dot, empty when the name has no dot.\<close>

fun ext_from :: "string \<Rightarrow> string \<Rightarrow> string" where
  "ext_from [] acc = []"
| "ext_from (c # rs) acc = (if c = CHR ''.'' then c # acc else ext_from rs (c # acc))"

definition Ext :: "string \<Rightarrow> string" where
  "Ext name = ext_from (rev name) []"


section \<open>Regular expressions\<close>

text \<open>
  \<open>regexp.Compile\<close> and \<open>FindString\<close> on the fragment of the syntax that the pattern
  table uses: a sequence of atoms (a literal byte, an escaped punctuation byte, \<open>.\<close>,
  \<open>\s\<close>, \<open>\w\<close>, \<open>\d\<close>), each optionally followed by \<open>*\<close> or \<open>+\<close>.  \<open>compile\<close> gives
  \<open>None\<close> on everything else: on what Go rejects and on the syntax this model does not
  cover.  Matching is leftmost-first with greedy repetition, as Go's is.  The classes
  \<open>\s\<close>, \<open>\w\<close> and \<open>\d\<close> are ASCII-only in Go, and \<open>.\<close> excludes the newline.
\<close>

datatype cclass = Lit char | AnyChar | SpaceCls | WordCls | DigitCls

datatype rep = Once | Star | Plus

type_synonym regex = "(cclass \<times> rep) list"

definition BSL :: char where
  "BSL = CHR 0x5C"

definition is_digit :: "char \<Rightarrow> bool" where
  "is_digit c = ((48::nat) \<le> of_char c \<and> of_char c \<le> (57::nat))"

definition is_alpha :: "char \<Rightarrow> bool" where
  "is_alpha c = (((65::nat) \<le> of_char c \<and> of_char c \<le> (90::nat))
                 \<or> ((97::nat) \<le> of_char c \<and> of_char c \<le> (122::nat)))"

fun accepts :: "cclass \<Rightarrow> char \<Rightarrow> bool" where
  "accepts (Lit c) x = (x = c)"
| "accepts AnyChar x = (x \<noteq> CHR 0x0A)"
| "accepts SpaceCls x = (x \<in> set [CHR 0x09, CHR 0x0A, CHR 0x0C, CHR 0x0D, CHR 0x20])"
| "accepts WordCls x = (is_digit x \<or> is_alpha x \<or> x = CHR ''_'')"
| "accepts DigitCls x = is_digit x"

fun parse_atom :: "string \<Rightarrow> (cclass \<times> string) option" where
  "parse_atom [] = None"
| "parse_atom (c # cs) =
     (if c = BSL then
        (case cs of
           [] \<Rightarrow> None
         | d # ds \<Rightarrow>
             if d = CHR ''s'' then Some (SpaceCls, ds)
             else if d = CHR ''w'' then Some (WordCls, ds)
             else if d = CHR ''d'' then Some (DigitCls, ds)
             else if (of_char d :: nat) < 128 \<and> \<not> is_digit d \<and> \<not> is_alpha d \<and> d \<noteq> CHR ''_''
               then Some (Lit d, ds)
             else None)
      else if c = CHR ''.'' then Some (AnyChar, cs)
      else if c \<in> set ''*+?()[]|^$'' then None
      else if c = CHR ''{'' \<and> (case cs of [] \<Rightarrow> False | d # ds \<Rightarrow> is_digit d) then None
      else Some (Lit c, cs))"

lemma parse_atom_shorter: "parse_atom s = Some (a, rest) \<Longrightarrow> length rest < length s"
  by (cases s) (auto split: if_splits list.splits)

function compile :: "string \<Rightarrow> regex option" where
  "compile s =
     (if s = [] then Some []
      else case parse_atom s of
             None \<Rightarrow> None
           | Some (a, rest) \<Rightarrow>
               (case rest of
                  [] \<Rightarrow> Some [(a, Once)]
                | q # rest' \<Rightarrow>
                    if q = CHR ''*'' then map_option (Cons (a, Star)) (compile rest')
                    else if q = CHR ''+'' then map_option (Cons (a, Plus)) (compile rest')
                    else map_option (Cons (a, Once)) (compile rest)))"
  by pat_completeness auto
termination
proof (relation "measure length")
  show "wf (measure length)" by simp
next
  fix s x a rest q rest'
  assume "parse_atom s = Some x" "(a, rest) = x" "rest = q # rest'"
  then show "(rest', s) \<in> measure length"
    using parse_atom_shorter [of s a rest] by simp
next
  fix s x a rest q rest'
  assume "parse_atom s = Some x" "(a, rest) = x" "rest = q # rest'"
  then show "(rest', s) \<in> measure length"
    using parse_atom_shorter [of s a rest] by simp
next
  fix s x a rest q rest'
  assume "parse_atom s = Some x" "(a, rest) = x" "rest = q # rest'"
  then show "(rest, s) \<in> measure length"
    using parse_atom_shorter [of s a rest] by simp
qed

declare compile.simps [simp del]

text \<open>The length of the match of \<open>r\<close> that begins at the first byte of the string, the
  one a backtracking matcher that prefers more repetitions finds first.\<close>

fun match_here :: "regex \<Rightarrow> string \<Rightarrow> nat option" where
  "match_here [] s = Some 0"
| "match_here ((c, Once) # r) [] = None"
| "match_here ((c, Once) # r) (x # xs) =
     (if accepts c x then map_option Suc (match_here r xs) else None)"
| "match_here ((c, Plus) # r) [] = None"
| "match_here ((c, Plus) # r) (x # xs) =
     (if accepts c x then map_option Suc (match_here ((c, Star) # r) xs) else None)"
| "match_here ((c, Star) # r) [] = match_here r []"
| "match_here ((c, Star) # r) (x # xs) =
     (if accepts c x then
        (case match_here ((c, Star) # r) xs of
           Some n \<Rightarrow> Some (Suc n)
         | None \<Rightarrow> match_here r (x # xs))
      else match_here r (x # xs))"

text \<open>\<open>FindString\<close>: the text of the leftmost match, the empty string when there is no
  match.\<close>

fun FindString :: "regex \<Rightarrow> string \<Rightarrow> string" where
  "FindString r [] = []"
| "FindString r (x # xs) =
     (case match_here r (x # xs) of
        Some n \<Rightarrow> take n (x # xs)
      | None \<Rightarrow> FindString r xs)"

section \<open>Report types (package sdk)\<close>

record Issue =
  File :: string
  Line :: int
  Category :: string
  Pattern :: string
  MatchedText :: string
  Severity :: string
  Suggestion :: string

record Dependency =
  Name :: string
  Version :: string
  Type :: string
  ARMCompatible :: string

record BuildSystem =
  bs_File :: string
  bs_System :: string
  NeedsReview :: bool

record ScanResults =
  TotalFiles :: int
  ScannedFiles :: int
  Issues :: "Issue list"
  Dependencies :: "Dependency list"
  BuildSystems :: "BuildSystem list"
  Recommendations :: "string list"
  ScanTime :: nat


section \<open>The file system and the run-time environment\<close>

text \<open>
  What the scanner can observe below \<open>projectPath\<close>.  A path is the list of the names
  that lead from \<open>projectPath\<close> to an entry, so \<open>filepath.Join (projectPath, name)\<close> is
  \<open>[name]\<close> and \<open>filepath.Rel (projectPath, path)\<close> is the path itself, printed with
  \<open>/\<close> between the names (\<open>.\<close> for \<open>projectPath\<close> itself).

  A file is what \<open>os.Open\<close> and a \<open>bufio.Scanner\<close> make of it: either the open fails, or
  the scanner delivers some lines and then stops, at the end of the file (\<open>Err ()\<close> is
  nil) or at an error (a failed read, a line longer than the scanner's buffer).
  A directory lists its entries in the order \<open>filepath.Walk\<close> visits them (lexical); a
  directory that cannot be accessed carries the error instead.
\<close>

datatype error =
    ErrNotExist | ErrPermission | ErrNotDir | ErrIsDir | ErrTooLong | ErrIO
  | Wrapped string error

datatype file_data = OpenFails error | Lines "string list" "error option"

datatype node =
    FileNode string file_data
  | DirNode string "node list"
  | BadDir string error

fun node_name :: "node \<Rightarrow> string" where
  "node_name (FileNode n d) = n"
| "node_name (DirNode n cs) = n"
| "node_name (BadDir n e) = n"

text \<open>
  Go does not fix the order in which \<open>range\<close> visits the keys of a map, and the order
  can differ from one \<open>range\<close> statement to the next.  The environment of a run supplies
  it: \<open>patterns_order path lineNum\<close> is the order of the categories for the \<open>range\<close>
  over \<open>s.patterns\<close> executed at that line of that file, \<open>build_order\<close> the order of the
  file names for the one \<open>range\<close> over \<open>buildPatterns\<close>.  \<open>clock\<close> is what \<open>time.Now\<close>
  returns.
\<close>

record world =
  fs :: "error + node"
  patterns_order :: "string list \<Rightarrow> int \<Rightarrow> string list"
  build_order :: "string list"
  clock :: nat

definition range_map :: "'k list \<Rightarrow> ('k \<times> 'v) list \<Rightarrow> ('k \<times> 'v) list" where
  "range_map order m = List.map_filter (\<lambda>k. map_option (Pair k) (map_of m k)) order"

text \<open>An order a \<open>range\<close> over the map can take: every key once.\<close>

definition key_order :: "'k list \<Rightarrow> ('k \<times> 'v) list \<Rightarrow> bool" where
  "key_order order m = (distinct order \<and> set order = fst ` set m)"

fun resolve :: "node \<Rightarrow> string list \<Rightarrow> error + node" where
  "resolve n [] = Inr n"
| "resolve (FileNode n d) (x # xs) = Inl ErrNotDir"
| "resolve (BadDir n e) (x # xs) = Inl e"
| "resolve (DirNode n cs) (x # xs) =
     (case find (\<lambda>c. node_name c = x) cs of
        None \<Rightarrow> Inl ErrNotExist
      | Some c \<Rightarrow> resolve c xs)"

definition lstat :: "world \<Rightarrow> string list \<Rightarrow> error + node" where
  "lstat w path = (case fs w of Inl e \<Rightarrow> Inl e | Inr n \<Rightarrow> resolve n path)"

text \<open>\<open>os.Open\<close> followed by reading with a \<open>bufio.Scanner\<close>.  A directory opens, and
  the first read fails.\<close>

definition os_Open :: "world \<Rightarrow> string list \<Rightarrow> file_data" where
  "os_Open w path =
     (case lstat w path of
        Inl e \<Rightarrow> OpenFails e
      | Inr (FileNode n d) \<Rightarrow> d
      | Inr (DirNode n cs) \<Rightarrow> Lines [] (Some ErrIsDir)
      | Inr (BadDir n e) \<Rightarrow> OpenFails e)"

fun join_path :: "string list \<Rightarrow> string" where
  "join_path [] = []"
| "join_path [x] = x"
| "join_path (x # y # ys) = x @ ''/'' @ join_path (y # ys)"

definition Rel :: "string list \<Rightarrow> string" where
  "Rel path = (if path = [] then ''.'' else join_path path)"

section \<open>The scanner\<close>

record Scanner =
  projectPath :: string
  config :: "string \<rightharpoonup> bool"
  patterns :: "(string \<times> string list) list"
  extensions :: "string list"

definition New :: "string \<Rightarrow> (string \<rightharpoonup> bool) \<Rightarrow> Scanner" where
  "New path cfg =
     \<lparr> projectPath = path,
       config = cfg,
       patterns =
         [(''inline_assembly'',
             [''__asm__'' @ [BSL] @ ''s*'' @ [BSL] @ ''('',
              ''asm'' @ [BSL] @ ''s*'' @ [BSL] @ ''('',
              ''_asm'' @ [BSL] @ ''s*{'']),
          (''x86_intrinsics'',
             [''#include'' @ [BSL] @ ''s*<.*mmintrin'' @ [BSL] @ ''.h.*>'',
              ''#include'' @ [BSL] @ ''s*<.*xmmintrin'' @ [BSL] @ ''.h.*>'',
              ''#include'' @ [BSL] @ ''s*<.*emmintrin'' @ [BSL] @ ''.h.*>'',
              ''#include'' @ [BSL] @ ''s*<.*pmmintrin'' @ [BSL] @ ''.h.*>'',
              ''#include'' @ [BSL] @ ''s*<.*immintrin'' @ [BSL] @ ''.h.*>'',
              ''_mm_'' @ [BSL] @ ''w+'',
              ''_mm'' @ [BSL] @ ''d+_'' @ [BSL] @ ''w+'']),
          (''architecture_checks'',
             [''#ifdef'' @ [BSL] @ ''s+_M_X64'',
              ''#ifdef'' @ [BSL] @ ''s+__x86_64__'',
              ''#ifdef'' @ [BSL] @ ''s+_M_IX86'',
              ''#ifdef'' @ [BSL] @ ''s+__i386__'']),
          (''platform_specific'',
             [''GetSystemInfo'', ''IsWow64Process'', ''SYSTEM_INFO''])],
       extensions =
         [''.c'', ''.cpp'', ''.cc'', ''.cxx'', ''.h'', ''.hpp'', ''.hxx'', ''.py'', ''.go'',
          ''.rs'', ''.java'', ''.cs'', ''.js'', ''.ts'', ''.jsx'', ''.tsx''] \<rparr>"

definition getSeverity :: "string \<Rightarrow> string" where
  "getSeverity category =
     (case map_of [(''inline_assembly'', ''high''),
                   (''x86_intrinsics'', ''high''),
                   (''architecture_checks'', ''medium''),
                   (''platform_specific'', ''medium'')] category of
        Some severity \<Rightarrow> severity
      | None \<Rightarrow> ''low'')"

definition getSuggestion :: "string \<Rightarrow> string \<Rightarrow> string" where
  "getSuggestion category matchedText =
     (case map_of
        [(''inline_assembly'', ''Replace with portable C/C++ code or use ARM NEON intrinsics''),
         (''x86_intrinsics'', ''Replace with ARM NEON equivalents or portable alternatives''),
         (''architecture_checks'', ''Add ARM architecture checks or use runtime detection''),
         (''platform_specific'',
            ''Use cross-platform alternatives or add ARM-specific implementations'')]
        category of
        Some suggestion \<Rightarrow> suggestion
      | None \<Rightarrow> ''Review for ARM compatibility'')"

subsection \<open>scanFile\<close>

text \<open>The three nested loops of \<open>scanFile\<close>, innermost first.  Each takes the issues
  collected so far and returns them with its own appended.\<close>

fun scan_exprs ::
  "string list \<Rightarrow> int \<Rightarrow> string \<Rightarrow> string \<Rightarrow> string list \<Rightarrow> Issue list \<Rightarrow> Issue list" where
  "scan_exprs filePath lineNum line category [] issues = issues"
| "scan_exprs filePath lineNum line category (pattern # rest) issues =
     (case compile pattern of
        None \<Rightarrow> scan_exprs filePath lineNum line category rest issues
      | Some regex \<Rightarrow>
          (let match = FindString regex line in
           if match \<noteq> [] then
             scan_exprs filePath lineNum line category rest
               (issues @
                [\<lparr> File = Rel filePath, Line = lineNum, Category = category,
                    Pattern = pattern, MatchedText = match,
                    Severity = getSeverity category,
                    Suggestion = getSuggestion category match \<rparr>])
           else scan_exprs filePath lineNum line category rest issues))"

fun scan_categories ::
  "string list \<Rightarrow> int \<Rightarrow> string \<Rightarrow> (string \<times> string list) list \<Rightarrow> Issue list \<Rightarrow> Issue list"
  where
  "scan_categories filePath lineNum line [] issues = issues"
| "scan_categories filePath lineNum line ((category, pats) # rest) issues =
     scan_categories filePath lineNum line rest
       (scan_exprs filePath lineNum line category pats issues)"

fun scan_lines ::
  "Scanner \<Rightarrow> world \<Rightarrow> string list \<Rightarrow> int \<Rightarrow> string list \<Rightarrow> Issue list \<Rightarrow> Issue list" where
  "scan_lines s w filePath lineNum [] issues = issues"
| "scan_lines s w filePath lineNum (line # rest) issues =
     scan_lines s w filePath (lineNum + 1) rest
       (scan_categories filePath (lineNum + 1) line
          (range_map (patterns_order w filePath (lineNum + 1)) (patterns s)) issues)"

definition scanFile :: "Scanner \<Rightarrow> world \<Rightarrow> string list \<Rightarrow> Issue list \<times> error option" where
  "scanFile s w filePath =
     (case os_Open w filePath of
        OpenFails err \<Rightarrow> ([], Some err)
      | Lines ls err \<Rightarrow> (scan_lines s w filePath 0 ls [], err))"


subsection \<open>filepath.Walk\<close>

text \<open>
  \<open>filepath.Walk\<close> of the Go library, with the state that the callback closes over
  passed through.  The callback gets the path, the \<open>FileInfo\<close> (nil when \<open>Lstat\<close> of the
  root failed) and the error, and answers nil, \<open>SkipDir\<close> or an error.  The file system
  of a run does not change while it is walked, so \<open>Lstat\<close> of a listed entry succeeds.
\<close>

datatype FileInfo = FileInfo string bool

fun fi_Name :: "FileInfo \<Rightarrow> string" where
  "fi_Name (FileInfo n d) = n"

fun fi_IsDir :: "FileInfo \<Rightarrow> bool" where
  "fi_IsDir (FileInfo n d) = d"

fun node_info :: "node \<Rightarrow> FileInfo" where
  "node_info (FileNode n d) = FileInfo n False"
| "node_info (DirNode n cs) = FileInfo n True"
| "node_info (BadDir n e) = FileInfo n True"

datatype walk_result = WalkNil | SkipDir | WalkErr error

type_synonym 's WalkFunc =
  "string list \<Rightarrow> FileInfo option \<Rightarrow> error option \<Rightarrow> 's \<Rightarrow> walk_result \<times> 's"

fun walk :: "string list \<Rightarrow> node \<Rightarrow> 's WalkFunc \<Rightarrow> 's \<Rightarrow> walk_result \<times> 's"
  and walk_names :: "string list \<Rightarrow> node list \<Rightarrow> 's WalkFunc \<Rightarrow> 's \<Rightarrow> walk_result \<times> 's"
  where
  "walk path (FileNode n d) walkFn st = walkFn path (Some (FileInfo n False)) None st"
| "walk path (BadDir n e) walkFn st = walkFn path (Some (FileInfo n True)) (Some e) st"
| "walk path (DirNode n cs) walkFn st =
     (case walkFn path (Some (FileInfo n True)) None st of
        (WalkNil, st') \<Rightarrow> walk_names path cs walkFn st'
      | (err1, st') \<Rightarrow> (err1, st'))"
| "walk_names path [] walkFn st = (WalkNil, st)"
| "walk_names path (c # cs) walkFn st =
     (case walk (path @ [node_name c]) c walkFn st of
        (WalkNil, st') \<Rightarrow> walk_names path cs walkFn st'
      | (SkipDir, st') \<Rightarrow>
          if fi_IsDir (node_info c) then walk_names path cs walkFn st' else (SkipDir, st')
      | (WalkErr e, st') \<Rightarrow> (WalkErr e, st'))"

definition Walk :: "world \<Rightarrow> 's WalkFunc \<Rightarrow> 's \<Rightarrow> error option \<times> 's" where
  "Walk w fn st =
     (case (case fs w of
              Inl e \<Rightarrow> fn [] None (Some e) st
            | Inr root \<Rightarrow> walk [] root fn st) of
        (WalkErr e, st') \<Rightarrow> (Some e, st')
      | (r, st') \<Rightarrow> (None, st'))"

subsection \<open>getSourceFiles\<close>

text \<open>The callback of \<open>getSourceFiles\<close>; its state is the variable \<open>files\<close>.  The last
  element of \<open>path\<close> is \<open>info.Name ()\<close>, which is what \<open>filepath.Ext\<close> looks at.  With a
  nil error \<open>Walk\<close> always passes a \<open>FileInfo\<close>; the last equation stands for the nil
  dereference that cannot happen.\<close>

fun getSourceFiles_fn :: "Scanner \<Rightarrow> (string list) list WalkFunc" where
  "getSourceFiles_fn s path info (Some err) files = (WalkErr err, files)"
| "getSourceFiles_fn s path (Some info) None files =
     (if fi_IsDir info then
        (let name = fi_Name info in
         if name = ''.git'' \<or> name = ''__pycache__'' \<or> name = ''node_modules'' \<or>
            name = ''.venv'' \<or> name = ''venv'' \<or> name = ''build'' \<or> name = ''dist'' \<or>
            name = ''.tox'' \<or> name = ''.pytest_cache''
         then (SkipDir, files)
         else (WalkNil, files))
      else
        (let ext = ToLower (Ext (fi_Name info)) in
         if ext \<in> set (extensions s) then (WalkNil, files @ [path]) else (WalkNil, files)))"
| "getSourceFiles_fn s path None None files = (WalkErr (Wrapped ''nil FileInfo'' ErrIO), files)"

definition getSourceFiles :: "Scanner \<Rightarrow> world \<Rightarrow> (string list) list \<times> error option" where
  "getSourceFiles s w = (case Walk w (getSourceFiles_fn s) [] of (err, files) \<Rightarrow> (files, err))"

subsection \<open>scanBuildSystems\<close>

definition buildPatterns :: "(string \<times> string) list" where
  "buildPatterns =
     [(''CMakeLists.txt'', ''cmake''),
      (''Makefile'', ''make''),
      (''build.gradle'', ''gradle''),
      (''pom.xml'', ''maven''),
      (''package.json'', ''npm''),
      (''Cargo.toml'', ''cargo''),
      (''go.mod'', ''go_modules'')]"

text \<open>\<open>filepath.Glob\<close> of a path without pattern characters (the seven file names have
  none, and \<open>projectPath\<close> is taken to have none): the path itself if \<open>Lstat\<close> finds it,
  nothing otherwise, and never an error.\<close>

definition Glob :: "world \<Rightarrow> string list \<Rightarrow> (string list) list \<times> error option" where
  "Glob w path = (case lstat w path of Inl e \<Rightarrow> ([], None) | Inr n \<Rightarrow> ([path], None))"

fun append_matches :: "string \<Rightarrow> (string list) list \<Rightarrow> BuildSystem list \<Rightarrow> BuildSystem list" where
  "append_matches system [] buildSystems = buildSystems"
| "append_matches system (match # rest) buildSystems =
     append_matches system rest
       (buildSystems @ [\<lparr> bs_File = Rel match, bs_System = system, NeedsReview = True \<rparr>])"

fun scanBuildSystems_fn :: "string \<Rightarrow> string \<Rightarrow> BuildSystem list WalkFunc" where
  "scanBuildSystems_fn pattern system path info (Some err) buildSystems =
     (WalkErr err, buildSystems)"
| "scanBuildSystems_fn pattern system path (Some info) None buildSystems =
     (if \<not> fi_IsDir info \<and> fi_Name info = pattern then
        (WalkNil,
         buildSystems @ [\<lparr> bs_File = Rel path, bs_System = system, NeedsReview = True \<rparr>])
      else (WalkNil, buildSystems))"
| "scanBuildSystems_fn pattern system path None None buildSystems =
     (WalkErr (Wrapped ''nil FileInfo'' ErrIO), buildSystems)"

text \<open>The loop over \<open>buildPatterns\<close>.  The error of the walk is assigned and never looked
  at, so what the walk appended before stopping is kept.\<close>

fun build_loop :: "world \<Rightarrow> (string \<times> string) list \<Rightarrow> BuildSystem list \<Rightarrow> BuildSystem list" where
  "build_loop w [] buildSystems = buildSystems"
| "build_loop w ((pattern, system) # rest) buildSystems =
     (case Glob w [pattern] of
        (matches, Some err) \<Rightarrow> build_loop w rest buildSystems
      | (matches, None) \<Rightarrow>
          build_loop w rest
            (snd (Walk w (scanBuildSystems_fn pattern system)
                    (append_matches system matches buildSystems))))"

definition scanBuildSystems :: "Scanner \<Rightarrow> world \<Rightarrow> BuildSystem list \<times> error option" where
  "scanBuildSystems s w = (build_loop w (range_map (build_order w) buildPatterns) [], None)"


subsection \<open>scanDependencies\<close>

text \<open>\<open>os.Stat\<close>; symbolic links are not part of the model, so it is \<open>Lstat\<close>.\<close>

definition os_Stat :: "world \<Rightarrow> string list \<Rightarrow> error option" where
  "os_Stat w path = (case lstat w path of Inl e \<Rightarrow> Some e | Inr n \<Rightarrow> None)"

definition IsNotExist :: "error option \<Rightarrow> bool" where
  "IsNotExist err = (err = Some ErrNotExist)"

definition scanNpmDependencies :: "Scanner \<Rightarrow> world \<Rightarrow> Dependency list \<times> error option" where
  "scanNpmDependencies s w =
     (let err = os_Stat w [''package.json''] in
      if IsNotExist err then ([], err)
      else ([\<lparr> Name = ''npm-dependencies'', Version = ''detected'', Type = ''npm'',
                ARMCompatible = ''unknown'' \<rparr>], None))"

lemma Split_not_Nil: "Split s sep \<noteq> []"
  by (subst Split.simps) (simp split: option.split)

text \<open>The body of the loop of \<open>scanPythonDependencies\<close> for one line: \<open>None\<close> is
  \<open>continue\<close>, otherwise the dependency that is appended.  \<open>Split\<close> never returns an
  empty list, so \<open>parts[0]\<close> is in range.\<close>

definition python_line :: "string \<Rightarrow> Dependency option" where
  "python_line text =
     (let line = TrimSpace text in
      if line = [] \<or> HasPrefix line ''#'' then None
      else
        (let (name, version) =
           (if Contains line ''=='' then
              (let parts = Split line ''=='' in
               (TrimSpace (parts ! 0), if length parts > 1 then TrimSpace (parts ! 1) else []))
            else if Contains line ''>='' then
              (let parts = Split line ''>='' in
               (TrimSpace (parts ! 0),
                if length parts > 1 then ''>='' @ TrimSpace (parts ! 1) else []))
            else (line, ''*''))
         in Some \<lparr> Name = name, Version = version, Type = ''python'',
                    ARMCompatible = ''unknown'' \<rparr>))"

fun python_loop :: "string list \<Rightarrow> Dependency list \<Rightarrow> Dependency list" where
  "python_loop [] dependencies = dependencies"
| "python_loop (text # rest) dependencies =
     (case python_line text of
        None \<Rightarrow> python_loop rest dependencies
      | Some d \<Rightarrow> python_loop rest (dependencies @ [d]))"

definition scanPythonDependencies :: "Scanner \<Rightarrow> world \<Rightarrow> Dependency list \<times> error option" where
  "scanPythonDependencies s w =
     (case os_Open w [''requirements.txt''] of
        OpenFails err \<Rightarrow> ([], Some err)
      | Lines ls err \<Rightarrow> (python_loop ls [], err))"

definition scanCargoDependencies :: "Scanner \<Rightarrow> world \<Rightarrow> Dependency list \<times> error option" where
  "scanCargoDependencies s w =
     (let err = os_Stat w [''Cargo.toml''] in
      if IsNotExist err then ([], err)
      else ([\<lparr> Name = ''cargo-dependencies'', Version = ''detected'', Type = ''cargo'',
                ARMCompatible = ''unknown'' \<rparr>], None))"

text \<open>The loop of \<open>scanGoDependencies\<close>; \<open>inRequireBlock\<close> is passed along.\<close>

fun go_loop :: "string list \<Rightarrow> bool \<Rightarrow> Dependency list \<Rightarrow> Dependency list" where
  "go_loop [] inRequireBlock dependencies = dependencies"
| "go_loop (text # rest) inRequireBlock dependencies =
     (let line = TrimSpace text in
      if HasPrefix line ''require ('' then go_loop rest True dependencies
      else if inRequireBlock \<and> line = '')'' then go_loop rest False dependencies
      else if inRequireBlock \<and> line \<noteq> [] \<and> \<not> HasPrefix line ''//'' then
        (let parts = Fields line in
         if length parts \<ge> 2 then
           go_loop rest inRequireBlock
             (dependencies @
              [\<lparr> Name = parts ! 0, Version = parts ! 1, Type = ''go'',
                  ARMCompatible = ''unknown'' \<rparr>])
         else go_loop rest inRequireBlock dependencies)
      else go_loop rest inRequireBlock dependencies)"

definition scanGoDependencies :: "Scanner \<Rightarrow> world \<Rightarrow> Dependency list \<times> error option" where
  "scanGoDependencies s w =
     (case os_Open w [''go.mod''] of
        OpenFails err \<Rightarrow> ([], Some err)
      | Lines ls err \<Rightarrow> (go_loop ls False [], err))"

definition append_if_ok :: "Dependency list \<Rightarrow> Dependency list \<times> error option \<Rightarrow> Dependency list"
  where
  "append_if_ok dependencies r =
     (case r of (deps, None) \<Rightarrow> dependencies @ deps | (deps, Some err) \<Rightarrow> dependencies)"

definition scanDependencies :: "Scanner \<Rightarrow> world \<Rightarrow> Dependency list \<times> error option" where
  "scanDependencies s w =
     (let dependencies = [];
          dependencies = append_if_ok dependencies (scanNpmDependencies s w);
          dependencies = append_if_ok dependencies (scanPythonDependencies s w);
          dependencies = append_if_ok dependencies (scanCargoDependencies s w);
          dependencies = append_if_ok dependencies (scanGoDependencies s w)
      in (dependencies, None))"

subsection \<open>generateRecommendations\<close>

text \<open>\<open>%d\<close> of \<open>fmt.Sprintf\<close>: the decimal digits, with a minus sign for a negative
  number.\<close>

function digits :: "nat \<Rightarrow> string" where
  "digits n = (if n < 10 then [char_of (48 + n)] else digits (n div 10) @ [char_of (48 + n mod 10)])"
  by pat_completeness auto
termination
  by (relation "measure id") auto

declare digits.simps [simp del]

definition itoa :: "int \<Rightarrow> string" where
  "itoa i = (if i < 0 then ''-'' @ digits (nat (- i)) else digits (nat i))"

text \<open>The texts of the messages, with the bytes that the source file has before them.\<close>

definition msg_clean :: string where
  "msg_clean = [CHR 0xC3, CHR 0xA2, CHR 0xC5, CHR 0x93, CHR 0xE2, CHR 0x80, CHR 0xA6]
     @ '' No obvious x86-specific code detected''"

definition msg_found :: "int \<Rightarrow> string" where
  "msg_found n = [CHR 0xC3, CHR 0xB0, CHR 0xC5, CHR 0xB8, CHR 0xE2, CHR 0x80, CHR 0x9D]
     @ '' Found '' @ itoa n @ '' potential compatibility issues''"

definition msg_high :: "int \<Rightarrow> string" where
  "msg_high n =
     [CHR 0xC3, CHR 0xA2, CHR 0xC5, CHR 0xA1, CHR 0xC2, CHR 0xA0, CHR 0xC3, CHR 0xAF, CHR 0xC2,
      CHR 0xB8]
     @ ''  '' @ itoa n @ '' high-severity issues require immediate attention''"

definition msg_cmake :: string where
  "msg_cmake =
     [CHR 0xC3, CHR 0xB0, CHR 0xC5, CHR 0xB8, CHR 0xE2, CHR 0x80, CHR 0x9C, CHR 0xE2, CHR 0x80,
      CHR 0xB9]
     @ '' CMake detected - review CMakeLists.txt for architecture-specific settings''"

definition msg_make :: string where
  "msg_make =
     [CHR 0xC3, CHR 0xB0, CHR 0xC5, CHR 0xB8, CHR 0xE2, CHR 0x80, CHR 0x9C, CHR 0xE2, CHR 0x80,
      CHR 0xB9]
     @ '' Makefile detected - review for architecture-specific compiler flags''"

definition msg_deps :: "int \<Rightarrow> string" where
  "msg_deps n =
     [CHR 0xC3, CHR 0xB0, CHR 0xC5, CHR 0xB8, CHR 0xE2, CHR 0x80, CHR 0x9C, CHR 0xC2, CHR 0xA6]
     @ '' '' @ itoa n @ '' dependencies found - verify ARM compatibility''"

fun count_high :: "Issue list \<Rightarrow> int \<Rightarrow> int" where
  "count_high [] highSeverityCount = highSeverityCount"
| "count_high (issue # rest) highSeverityCount =
     (if Severity issue = ''high'' then count_high rest (highSeverityCount + 1)
      else count_high rest highSeverityCount)"

fun mark_systems :: "BuildSystem list \<Rightarrow> (string \<rightharpoonup> bool) \<Rightarrow> (string \<rightharpoonup> bool)" where
  "mark_systems [] buildSystemTypes = buildSystemTypes"
| "mark_systems (bs # rest) buildSystemTypes =
     mark_systems rest (buildSystemTypes(bs_System bs \<mapsto> True))"

text \<open>Reading a \<open>map[string]bool\<close> at a key it does not have gives \<open>false\<close>.\<close>

definition map_bool :: "(string \<rightharpoonup> bool) \<Rightarrow> string \<Rightarrow> bool" where
  "map_bool m k = (case m k of None \<Rightarrow> False | Some b \<Rightarrow> b)"

definition generateRecommendations :: "Scanner \<Rightarrow> ScanResults \<Rightarrow> string list" where
  "generateRecommendations s results =
     (let recommendations = [];
          issueCount = int (length (Issues results));
          highSeverityCount = count_high (Issues results) 0;
          recommendations =
            (if issueCount = 0 then recommendations @ [msg_clean]
             else
               (let recommendations = recommendations @ [msg_found issueCount] in
                if highSeverityCount > 0 then recommendations @ [msg_high highSeverityCount]
                else recommendations));
          buildSystemTypes = mark_systems (BuildSystems results) Map.empty;
          recommendations =
            (if map_bool buildSystemTypes ''cmake'' then recommendations @ [msg_cmake]
             else recommendations);
          recommendations =
            (if map_bool buildSystemTypes ''make'' then recommendations @ [msg_make]
             else recommendations);
          depCount = int (length (Dependencies results));
          recommendations =
            (if depCount > 0 then recommendations @ [msg_deps depCount] else recommendations)
      in recommendations)"

subsection \<open>Scan\<close>

text \<open>The loop of \<open>Scan\<close> over the files.  The warning that a verbose run writes to
  standard error for a file that could not be scanned is not part of the report and is
  left out.\<close>

fun scan_files :: "Scanner \<Rightarrow> world \<Rightarrow> (string list) list \<Rightarrow> ScanResults \<Rightarrow> ScanResults" where
  "scan_files s w [] results = results"
| "scan_files s w (file # rest) results =
     (case scanFile s w file of
        (issues, Some err) \<Rightarrow> scan_files s w rest results
      | (issues, None) \<Rightarrow>
          scan_files s w rest
            (results\<lparr> Issues := Issues results @ issues,
                      ScannedFiles := ScannedFiles results + 1 \<rparr>))"

text \<open>\<open>Scan\<close> returns a pointer to the results and an error; \<open>None\<close> in the first
  component is the nil pointer.\<close>

definition Scan :: "Scanner \<Rightarrow> world \<Rightarrow> ScanResults option \<times> error option" where
  "Scan s w =
     (let results = \<lparr> TotalFiles = 0, ScannedFiles = 0, Issues = [], Dependencies = [],
                      BuildSystems = [], Recommendations = [], ScanTime = clock w \<rparr>
      in case getSourceFiles s w of
           (files, Some err) \<Rightarrow> (None, Some (Wrapped ''failed to get source files'' err))
         | (files, None) \<Rightarrow>
             (let results = results\<lparr> TotalFiles := int (length files) \<rparr>;
                  results = scan_files s w files results
              in case scanBuildSystems s w of
                   (buildSystems, Some err) \<Rightarrow>
                     (None, Some (Wrapped ''failed to scan build systems'' err))
                 | (buildSystems, None) \<Rightarrow>
                     (let results = results\<lparr> BuildSystems := buildSystems \<rparr>
                      in case scanDependencies s w of
                           (dependencies, Some err) \<Rightarrow>
                             (None, Some (Wrapped ''failed to scan dependencies'' err))
                         | (dependencies, None) \<Rightarrow>
                             (let results = results\<lparr> Dependencies := dependencies \<rparr>;
                                  results = results\<lparr> Recommendations :=
                                              generateRecommendations s results \<rparr>
                              in (Some results, None)))))"

subsection \<open>The scan command\<close>

text \<open>\<open>runScan\<close> up to the call of \<open>Scan\<close>: the check that the path exists, the
  construction of the scanner with the two flags, and the scan.  What follows in the
  source renders the results and is left out.\<close>

definition runScan :: "string \<Rightarrow> bool \<Rightarrow> bool \<Rightarrow> world \<Rightarrow> ScanResults option \<times> error option" where
  "runScan absPath scanRecursive verbose w =
     (if IsNotExist (os_Stat w []) then (None, Some (Wrapped ''path does not exist'' ErrNotExist))
      else
        (let scanner = New absPath [''recursive'' \<mapsto> scanRecursive, ''verbose'' \<mapsto> verbose]
         in case Scan scanner w of
              (results, Some err) \<Rightarrow> (None, Some (Wrapped ''scan failed'' err))
            | (results, None) \<Rightarrow> (results, None)))"


section \<open>Example trees and runs\<close>

text \<open>A run in which every \<open>range\<close> visits a map in the order of its literal.\<close>

definition source_order :: "string list \<Rightarrow> int \<Rightarrow> string list" where
  "source_order path lineNum = map fst (patterns (New [] Map.empty))"

definition world_of :: "node \<Rightarrow> world" where
  "world_of root =
     \<lparr> fs = Inr root, patterns_order = source_order, build_order = map fst buildPatterns,
       clock = 0 \<rparr>"

definition tree_unreadable :: node where
  "tree_unreadable =
     DirNode ''proj''
       [FileNode ''a.c'' (Lines [''asm(''] None),
        FileNode ''b.c'' (Lines [''asm(''] (Some ErrIO)),
        FileNode ''c.c'' (OpenFails ErrPermission)]"


text \<open>A build file at the root and one of the same name in a subdirectory, beside a
  source file.\<close>

definition tree_cmake :: node where
  "tree_cmake =
     DirNode ''proj''
       [FileNode ''CMakeLists.txt'' (Lines [] None),
        DirNode ''sub''
          [FileNode ''CMakeLists.txt'' (Lines [] None),
           FileNode ''a.c'' (Lines [''asm (''] None)]]"

text \<open>Manifests of all four ecosystems in a subdirectory, none at the root.\<close>

definition tree_nested_manifests :: node where
  "tree_nested_manifests =
     DirNode ''proj''
       [FileNode ''main.py'' (Lines [''import numpy''] None),
        DirNode ''sub''
          [FileNode ''requirements.txt'' (Lines [''numpy==1.21.0''] None),
           FileNode ''package.json'' (Lines [''{}''] None),
           FileNode ''Cargo.toml'' (Lines [] None),
           FileNode ''go.mod'' (Lines [''require ('', ''a/b v1.0.0'', '')''] None)]]"

text \<open>A Maven build file in a subdirectory and nothing else.\<close>

definition tree_maven :: node where
  "tree_maven = DirNode ''proj'' [DirNode ''sub'' [FileNode ''pom.xml'' (Lines [] None)]]"

text \<open>A requirements file with a pinned, a commented, an empty, a lower-bound and a bare
  line.\<close>

definition tree_requirements :: node where
  "tree_requirements =
     DirNode ''proj''
       [FileNode ''requirements.txt''
          (Lines [''numpy==1.21.0'', ''  # pinned'', [], ''flask>=2.0'', ''requests''] None)]"

section \<open>Properties of Scan\<close>

text \<open>A file counts as scanned when \<open>scanFile\<close> returns no error for it.\<close>

definition scanned_ok :: "Scanner \<Rightarrow> world \<Rightarrow> string list \<Rightarrow> bool" where
  "scanned_ok s w file = (snd (scanFile s w file) = None)"

lemma scan_files_Issues:
  "Issues (scan_files s w files r) =
     Issues r @ concat (map (\<lambda>f. fst (scanFile s w f)) (filter (scanned_ok s w) files))"
  by (induction files arbitrary: r) (auto simp: scanned_ok_def split: prod.splits option.splits)

lemma scan_files_ScannedFiles:
  "ScannedFiles (scan_files s w files r) =
     ScannedFiles r + int (length (filter (scanned_ok s w) files))"
  by (induction files arbitrary: r) (auto simp: scanned_ok_def split: prod.splits option.splits)

lemma scan_files_TotalFiles: "TotalFiles (scan_files s w files r) = TotalFiles r"
  by (induction files arbitrary: r) (auto split: prod.splits option.splits)

lemma scan_files_others:
  "BuildSystems (scan_files s w files r) = BuildSystems r"
  "Dependencies (scan_files s w files r) = Dependencies r"
  "Recommendations (scan_files s w files r) = Recommendations r"
  "ScanTime (scan_files s w files r) = ScanTime r"
  by (induction files arbitrary: r) (auto split: prod.splits option.splits)

lemma Scan_cases:
  "Scan s w =
     (case getSourceFiles s w of
        (files, Some err) \<Rightarrow> (None, Some (Wrapped ''failed to get source files'' err))
      | (files, None) \<Rightarrow>
          (let r1 = scan_files s w files
                      \<lparr> TotalFiles = int (length files), ScannedFiles = 0, Issues = [],
                        Dependencies = [], BuildSystems = [], Recommendations = [],
                        ScanTime = clock w \<rparr>;
               r2 = r1\<lparr> BuildSystems := fst (scanBuildSystems s w),
                        Dependencies := fst (scanDependencies s w) \<rparr>
           in (Some (r2\<lparr> Recommendations := generateRecommendations s r2 \<rparr>), None)))"
  by (simp add: Scan_def scanBuildSystems_def scanDependencies_def Let_def split: prod.splits option.splits)

text \<open>
  Claim C7.  A scan that returns a report has \<open>0 \<le> ScannedFiles \<le> TotalFiles\<close>:
  \<open>TotalFiles\<close> is the number of files that \<open>getSourceFiles\<close> listed, \<open>ScannedFiles\<close> the
  number of those that \<open>scanFile\<close> read without an error.  A file that cannot be opened
  or read does not abort the scan: whenever \<open>getSourceFiles\<close> succeeds, \<open>Scan\<close> returns a
  report and no error.
\<close>

theorem Scan_counts:
  "(snd (getSourceFiles s w) = None \<longrightarrow> (\<exists>r. Scan s w = (Some r, None))) \<and>
   (\<forall>r err. Scan s w = (Some r, err) \<longrightarrow>
      0 \<le> ScannedFiles r \<and> ScannedFiles r \<le> TotalFiles r \<and>
      TotalFiles r = int (length (fst (getSourceFiles s w))) \<and>
      ScannedFiles r = int (length (filter (scanned_ok s w) (fst (getSourceFiles s w)))))"
proof (cases "getSourceFiles s w")
  case (Pair files e)
  show ?thesis
  proof (cases e)
    case None
    with Pair show ?thesis
      by (auto simp: Scan_cases Let_def scan_files_ScannedFiles scan_files_TotalFiles)
  next
    case (Some a)
    with Pair show ?thesis by (simp add: Scan_cases)
  qed
qed

theorem Scan_counts_witness:
  "snd (getSourceFiles (New ''proj'' Map.empty) (world_of tree_unreadable)) = None \<and>
   (\<exists>r. Scan (New ''proj'' Map.empty) (world_of tree_unreadable) = (Some r, None) \<and>
        0 \<le> ScannedFiles r \<and> ScannedFiles r \<le> TotalFiles r \<and>
        TotalFiles r = 3 \<and> ScannedFiles r = 1)"
proof -
  let ?s = "New ''proj'' Map.empty" and ?w = "world_of tree_unreadable"
  have g: "getSourceFiles ?s ?w = ([[''a.c''], [''b.c''], [''c.c'']], None)"
    by code_simp
  have k: "filter (scanned_ok ?s ?w) [[''a.c''], [''b.c''], [''c.c'']] = [[''a.c'']]"
    by code_simp
  from Scan_counts [of ?s ?w] g obtain r where r: "Scan ?s ?w = (Some r, None)"
    by auto
  with Scan_counts [of ?s ?w]
  have "0 \<le> ScannedFiles r \<and> ScannedFiles r \<le> TotalFiles r \<and>
        TotalFiles r = int (length (fst (getSourceFiles ?s ?w))) \<and>
        ScannedFiles r = int (length (filter (scanned_ok ?s ?w) (fst (getSourceFiles ?s ?w))))"
    by blast
  then have "0 \<le> ScannedFiles r \<and> ScannedFiles r \<le> TotalFiles r \<and>
        TotalFiles r = 3 \<and> ScannedFiles r = 1"
    unfolding g fst_conv k by simp
  with r g show ?thesis by auto
qed

text \<open>
  Claim C8.  When the root path does not exist, \<open>Scan\<close> returns the nil report together
  with the error of the walk, wrapped; \<open>runScan\<close> finds the path missing before it
  builds a scanner and returns no report either.
\<close>

theorem Scan_missing_root:
  "Scan s (w\<lparr> fs := Inl ErrNotExist \<rparr>) =
     (None, Some (Wrapped ''failed to get source files'' ErrNotExist)) \<and>
   runScan absPath scanRecursive verbose (w\<lparr> fs := Inl ErrNotExist \<rparr>) =
     (None, Some (Wrapped ''path does not exist'' ErrNotExist))"
  by (simp add: Scan_def getSourceFiles_def Walk_def runScan_def os_Stat_def lstat_def
      IsNotExist_def)

theorem Scan_missing_root_witness:
  "Scan (New ''proj'' Map.empty) ((world_of tree_unreadable)\<lparr> fs := Inl ErrNotExist \<rparr>) =
     (None, Some (Wrapped ''failed to get source files'' ErrNotExist)) \<and>
   runScan ''proj'' True False ((world_of tree_unreadable)\<lparr> fs := Inl ErrNotExist \<rparr>) =
     (None, Some (Wrapped ''path does not exist'' ErrNotExist))"
  using Scan_missing_root [of "New ''proj'' Map.empty" "world_of tree_unreadable" "''proj''" True False]
  by simp

text \<open>
  Claim C9.  The issues of a report are the issues of the files that \<open>scanFile\<close> read
  without an error, file after file; a file whose open or read failed contributes
  nothing, also when \<open>scanFile\<close> had collected issues before the error, and it is not
  counted in \<open>ScannedFiles\<close>.
\<close>

theorem Scan_discards_failed_files:
  "\<forall>r err. Scan s w = (Some r, err) \<longrightarrow>
     Issues r =
       concat (map (\<lambda>f. fst (scanFile s w f))
                 (filter (scanned_ok s w) (fst (getSourceFiles s w)))) \<and>
     ScannedFiles r = int (length (filter (scanned_ok s w) (fst (getSourceFiles s w))))"
proof (cases "getSourceFiles s w")
  case (Pair files e)
  then show ?thesis
    by (cases e) (auto simp: Scan_cases Let_def scan_files_Issues scan_files_ScannedFiles)
qed

theorem Scan_discards_failed_files_witness:
  "fst (scanFile (New ''proj'' Map.empty) (world_of tree_unreadable) [''b.c'']) \<noteq> [] \<and>
   snd (scanFile (New ''proj'' Map.empty) (world_of tree_unreadable) [''b.c'']) = Some ErrIO \<and>
   (\<exists>r. Scan (New ''proj'' Map.empty) (world_of tree_unreadable) = (Some r, None) \<and>
        map File (Issues r) = [''a.c''] \<and> ScannedFiles r = 1)"
proof -
  let ?s = "New ''proj'' Map.empty" and ?w = "world_of tree_unreadable"
  have g: "getSourceFiles ?s ?w = ([[''a.c''], [''b.c''], [''c.c'']], None)"
    by code_simp
  have k: "filter (scanned_ok ?s ?w) [[''a.c''], [''b.c''], [''c.c'']] = [[''a.c'']]"
    by code_simp
  have a: "map File (fst (scanFile ?s ?w [''a.c''])) = [''a.c'']"
    by code_simp
  have b: "fst (scanFile ?s ?w [''b.c'']) \<noteq> []" "snd (scanFile ?s ?w [''b.c'']) = Some ErrIO"
    by code_simp+
  obtain r where r: "Scan ?s ?w = (Some r, None)"
    using g by (auto simp: Scan_cases Let_def)
  with Scan_discards_failed_files [of ?s ?w]
  have "Issues r =
       concat (map (\<lambda>f. fst (scanFile ?s ?w f))
                 (filter (scanned_ok ?s ?w) (fst (getSourceFiles ?s ?w)))) \<and>
     ScannedFiles r = int (length (filter (scanned_ok ?s ?w) (fst (getSourceFiles ?s ?w))))"
    by blast
  then have "map File (Issues r) = [''a.c''] \<and> ScannedFiles r = 1"
    unfolding g fst_conv k by (simp add: a)
  with r b show ?thesis by auto
qed



subsection \<open>What the scanner reads of its configuration\<close>

lemma generateRecommendations_cong:
  "Issues r' = Issues r \<Longrightarrow> BuildSystems r' = BuildSystems r \<Longrightarrow>
   Dependencies r' = Dependencies r \<Longrightarrow>
   generateRecommendations s' r' = generateRecommendations s r"
  by (simp add: generateRecommendations_def)

lemma generateRecommendations_upd [simp]:
  "generateRecommendations s (r\<lparr>Recommendations := x\<rparr>) = generateRecommendations s r"
  by (simp add: generateRecommendations_def)

lemma Scan_report:
  assumes "getSourceFiles s w = (files, None)"
  shows "\<exists>r. Scan s w = (Some r, None) \<and>
           TotalFiles r = int (length files) \<and>
           ScannedFiles r = int (length (filter (scanned_ok s w) files)) \<and>
           Issues r = concat (map (\<lambda>f. fst (scanFile s w f)) (filter (scanned_ok s w) files)) \<and>
           BuildSystems r = fst (scanBuildSystems s w) \<and>
           Dependencies r = fst (scanDependencies s w) \<and>
           Recommendations r = generateRecommendations s r \<and>
           ScanTime r = clock w"
  using assms
  by (simp add: Scan_cases Let_def scan_files_Issues scan_files_ScannedFiles
      scan_files_TotalFiles scan_files_others)

lemma scan_lines_cong:
  "patterns s' = patterns s \<Longrightarrow> scan_lines s' w f n ls acc = scan_lines s w f n ls acc"
  by (induction ls arbitrary: n acc) simp_all

lemma scanFile_cong: "patterns s' = patterns s \<Longrightarrow> scanFile s' w f = scanFile s w f"
  by (simp add: scanFile_def scan_lines_cong [of s' s] split: file_data.splits)

lemma scan_files_cong:
  "patterns s' = patterns s \<Longrightarrow> scan_files s' w files r = scan_files s w files r"
  by (induction files arbitrary: r) (simp_all add: scanFile_cong [of s' s])

lemma getSourceFiles_fn_cong:
  "extensions s' = extensions s \<Longrightarrow> getSourceFiles_fn s' = getSourceFiles_fn s"
proof (intro ext)
  fix path info err files
  assume "extensions s' = extensions s"
  then show "getSourceFiles_fn s' path info err files = getSourceFiles_fn s path info err files"
    by (cases "(s, path, info, err, files)" rule: getSourceFiles_fn.cases) auto
qed

lemma Scan_cong:
  assumes p: "patterns s' = patterns s" and e: "extensions s' = extensions s"
  shows "Scan s' w = Scan s w"
  unfolding Scan_def getSourceFiles_def scanBuildSystems_def scanDependencies_def
    scanNpmDependencies_def scanPythonDependencies_def scanCargoDependencies_def
    scanGoDependencies_def generateRecommendations_def
    scan_files_cong [OF p] getSourceFiles_fn_cong [OF e]
  by (rule refl)

lemma runScan_found:
  "fs w = Inr root \<Longrightarrow> Scan (New absPath [''recursive'' \<mapsto> b, ''verbose'' \<mapsto> v]) w = (Some r, None)
   \<Longrightarrow> runScan absPath b v w = (Some r, None)"
  by (simp add: runScan_def os_Stat_def lstat_def IsNotExist_def)


text \<open>
  Claim C3.  The scan command stores the \<open>recursive\<close> flag in the configuration of the
  scanner, and the scanner never reads it: a run with the flag off returns what a run
  with the flag on returns.  On the tree \<open>tree_cmake\<close> a scan with the flag off lists
  and scans \<open>sub/a.c\<close> and reports the issue found there.
\<close>

theorem runScan_ignores_recursive:
  "runScan absPath False verbose w = runScan absPath True verbose w \<and>
   (\<exists>r. runScan ''proj'' False False (world_of tree_cmake) = (Some r, None) \<and>
        TotalFiles r = 1 \<and> ScannedFiles r = 1 \<and> map File (Issues r) = [''sub/a.c''])"
proof -
  have "Scan (New absPath [''recursive'' \<mapsto> False, ''verbose'' \<mapsto> verbose]) w
      = Scan (New absPath [''recursive'' \<mapsto> True, ''verbose'' \<mapsto> verbose]) w"
    by (rule Scan_cong) (simp_all add: New_def)
  then have 1: "runScan absPath False verbose w = runScan absPath True verbose w"
    by (simp add: runScan_def)
  let ?s = "New ''proj'' [''recursive'' \<mapsto> False, ''verbose'' \<mapsto> False]"
  let ?t = "New ''proj'' Map.empty"
  let ?w = "world_of tree_cmake"
  have s: "patterns ?s = patterns ?t" "extensions ?s = extensions ?t"
    by (simp_all add: New_def)
  have g: "getSourceFiles ?t ?w = ([[''sub'', ''a.c'']], None)"
    by code_simp
  have k: "filter (scanned_ok ?t ?w) [[''sub'', ''a.c'']] = [[''sub'', ''a.c'']]"
    by code_simp
  have f: "map File (fst (scanFile ?t ?w [''sub'', ''a.c''])) = [''sub/a.c'']"
    by code_simp
  from Scan_report [OF g] obtain r where
    r: "Scan ?t ?w = (Some r, None)"
    and t: "TotalFiles r = int (length [[''sub'', ''a.c'']])"
    and c: "ScannedFiles r = int (length (filter (scanned_ok ?t ?w) [[''sub'', ''a.c'']]))"
    and i: "Issues r = concat (map (\<lambda>f. fst (scanFile ?t ?w f))
                     (filter (scanned_ok ?t ?w) [[''sub'', ''a.c'']]))"
    by blast
  from t have t': "TotalFiles r = 1" by simp
  from c have c': "ScannedFiles r = 1" unfolding k by simp
  from i have i': "map File (Issues r) = [''sub/a.c'']" unfolding k by (simp add: f)
  have "Scan ?s ?w = Scan ?t ?w"
    by (rule Scan_cong) (rule s)+
  then have sr: "Scan ?s ?w = (Some r, None)"
    using r by (rule trans)
  have rt: "fs ?w = Inr tree_cmake"
    by (simp add: world_of_def)
  have "runScan ''proj'' False False ?w = (Some r, None)"
    by (rule runScan_found [OF rt sr])
  with t' c' i' have "\<exists>r. runScan ''proj'' False False ?w = (Some r, None) \<and>
        TotalFiles r = 1 \<and> ScannedFiles r = 1 \<and> map File (Issues r) = [''sub/a.c'']"
    by (intro exI [of _ r] conjI)
  with 1 show ?thesis by (rule conjI)
qed


section \<open>Build systems\<close>

text \<open>
  Claim C2.  On a tree with \<open>CMakeLists.txt\<close> at the root and in \<open>sub\<close>,
  \<open>scanBuildSystems\<close> returns three entries: \<open>Glob\<close> finds the file at the root, and
  the walk that follows visits the root as well as the subdirectories, so the file at
  the root is entered a second time.
\<close>

theorem scanBuildSystems_root_file_twice:
  "map bs_File (fst (scanBuildSystems (New ''proj'' Map.empty) (world_of tree_cmake)))
     = [''CMakeLists.txt'', ''CMakeLists.txt'', ''sub/CMakeLists.txt'']"
  by code_simp


section \<open>Dependencies\<close>

text \<open>The root with every directory below it emptied.\<close>

fun top_level :: "node \<Rightarrow> node" where
  "top_level (DirNode n cs) = DirNode n []"
| "top_level (FileNode n d) = FileNode n d"
| "top_level (BadDir n e) = BadDir n e"

definition manifest_names :: "string list" where
  "manifest_names = [''package.json'', ''requirements.txt'', ''Cargo.toml'', ''go.mod'']"

lemma node_name_top_level [simp]: "node_name (top_level c) = node_name c"
  by (cases c) simp_all

lemma find_top_level:
  "find (\<lambda>c. node_name c = x) (map top_level cs) = map_option top_level (find (\<lambda>c. node_name c = x) cs)"
  by (induction cs) simp_all

lemma os_Open_top_level:
  "os_Open (w'\<lparr> fs := Inr (DirNode n' (map top_level cs)) \<rparr>) [x]
     = os_Open (w\<lparr> fs := Inr (DirNode n cs) \<rparr>) [x]"
proof (cases "find (\<lambda>c. node_name c = x) cs")
  case None
  then show ?thesis by (simp add: os_Open_def lstat_def find_top_level)
next
  case (Some c)
  then show ?thesis by (cases c) (simp_all add: os_Open_def lstat_def find_top_level)
qed

lemma os_Stat_top_level:
  "os_Stat (w'\<lparr> fs := Inr (DirNode n' (map top_level cs)) \<rparr>) [x]
     = os_Stat (w\<lparr> fs := Inr (DirNode n cs) \<rparr>) [x]"
  by (cases "find (\<lambda>c. node_name c = x) cs") (simp_all add: os_Stat_def lstat_def find_top_level)

lemma find_absent: "x \<notin> node_name ` set cs \<Longrightarrow> find (\<lambda>c. node_name c = x) cs = None"
  by (induction cs) auto

lemma os_Open_absent:
  "x \<notin> node_name ` set cs \<Longrightarrow> os_Open (w\<lparr> fs := Inr (DirNode n cs) \<rparr>) [x] = OpenFails ErrNotExist"
  by (simp add: os_Open_def lstat_def find_absent)

lemma os_Stat_absent:
  "x \<notin> node_name ` set cs \<Longrightarrow> os_Stat (w\<lparr> fs := Inr (DirNode n cs) \<rparr>) [x] = Some ErrNotExist"
  by (simp add: os_Stat_def lstat_def find_absent)

text \<open>
  Claim C10.  \<open>scanDependencies\<close> looks at the four manifests directly under the root
  and at nothing below: emptying every subdirectory of the root changes nothing in what
  it returns, and a root that has no entry named \<open>package.json\<close>,
  \<open>requirements.txt\<close>, \<open>Cargo.toml\<close> or \<open>go.mod\<close> gives no dependency, whatever its
  subdirectories hold.
\<close>

theorem scanDependencies_root_only:
  "scanDependencies s (w\<lparr> fs := Inr (DirNode n cs) \<rparr>)
     = scanDependencies s' (w'\<lparr> fs := Inr (DirNode n' (map top_level cs)) \<rparr>) \<and>
   ((\<forall>c \<in> set cs. node_name c \<notin> set manifest_names) \<longrightarrow>
      fst (scanDependencies s (w\<lparr> fs := Inr (DirNode n cs) \<rparr>)) = [])"
proof
  show "scanDependencies s (w\<lparr> fs := Inr (DirNode n cs) \<rparr>)
     = scanDependencies s' (w'\<lparr> fs := Inr (DirNode n' (map top_level cs)) \<rparr>)"
    unfolding scanDependencies_def scanNpmDependencies_def scanPythonDependencies_def
      scanCargoDependencies_def scanGoDependencies_def
      os_Open_top_level [where w' = w' and n' = n' and w = w and n = n]
      os_Stat_top_level [where w' = w' and n' = n' and w = w and n = n]
    by (rule refl)
next
  show "(\<forall>c \<in> set cs. node_name c \<notin> set manifest_names) \<longrightarrow>
      fst (scanDependencies s (w\<lparr> fs := Inr (DirNode n cs) \<rparr>)) = []"
  proof
    assume a: "\<forall>c \<in> set cs. node_name c \<notin> set manifest_names"
    have "x \<in> set manifest_names \<Longrightarrow> x \<notin> node_name ` set cs" for x
      using a by auto
    then have "''package.json'' \<notin> node_name ` set cs" "''requirements.txt'' \<notin> node_name ` set cs"
      "''Cargo.toml'' \<notin> node_name ` set cs" "''go.mod'' \<notin> node_name ` set cs"
      by (simp_all add: manifest_names_def)
    then show "fst (scanDependencies s (w\<lparr> fs := Inr (DirNode n cs) \<rparr>)) = []"
      by (simp add: scanDependencies_def scanNpmDependencies_def scanPythonDependencies_def
          scanCargoDependencies_def scanGoDependencies_def os_Open_absent os_Stat_absent
          IsNotExist_def append_if_ok_def)
  qed
qed

theorem scanDependencies_root_only_witness:
  "fst (scanDependencies (New ''proj'' Map.empty) (world_of tree_nested_manifests)) = [] \<and>
   scanDependencies (New ''proj'' Map.empty) (world_of tree_nested_manifests)
     = scanDependencies (New ''proj'' Map.empty)
         (world_of (DirNode ''proj''
            [FileNode ''main.py'' (Lines [''import numpy''] None), DirNode ''sub'' []]))"
proof -
  let ?cs = "[FileNode ''main.py'' (Lines [''import numpy''] None),
        DirNode ''sub''
          [FileNode ''requirements.txt'' (Lines [''numpy==1.21.0''] None),
           FileNode ''package.json'' (Lines [''{}''] None),
           FileNode ''Cargo.toml'' (Lines [] None),
           FileNode ''go.mod'' (Lines [''require ('', ''a/b v1.0.0'', '')''] None)]]"
  let ?w = "world_of tree_nested_manifests"
  have w: "?w\<lparr> fs := Inr (DirNode ''proj'' ?cs) \<rparr> = ?w"
    by (simp add: world_of_def tree_nested_manifests_def)
  have w': "?w\<lparr> fs := Inr (DirNode ''proj'' (map top_level ?cs)) \<rparr>
      = world_of (DirNode ''proj''
            [FileNode ''main.py'' (Lines [''import numpy''] None), DirNode ''sub'' []])"
    by (simp add: world_of_def)
  have h: "\<forall>c \<in> set ?cs. node_name c \<notin> set manifest_names"
    by (simp add: manifest_names_def)
  from scanDependencies_root_only [where s = "New ''proj'' Map.empty" and w = ?w
      and n = "''proj''" and cs = ?cs and s' = "New ''proj'' Map.empty" and w' = ?w
      and n' = "''proj''"] h
  show ?thesis unfolding w w' by blast
qed


section \<open>Recommendations\<close>

lemma count_high_eq:
  "count_high issues k = k + int (length (filter (\<lambda>i. Severity i = ''high'') issues))"
  by (induction issues arbitrary: k) simp_all

lemma map_bool_mark_systems:
  "map_bool (mark_systems bss m) k = (map_bool m k \<or> k \<in> bs_System ` set bss)"
  by (induction bss arbitrary: m) (auto simp: map_bool_def)

text \<open>The number of issues of high severity.\<close>

definition high_count :: "ScanResults \<Rightarrow> int" where
  "high_count results = int (length (filter (\<lambda>i. Severity i = ''high'') (Issues results)))"

definition has_system :: "ScanResults \<Rightarrow> string \<Rightarrow> bool" where
  "has_system results system = (system \<in> bs_System ` set (BuildSystems results))"

text \<open>
  Claim C5, as the code has it.  The recommendations are, in this order: one message
  with the number of issues, or the clean-scan message when there is none; one message
  with the number of high-severity issues if and only if there is one; the CMake
  message if and only if a build system of type \<open>cmake\<close> was found; the Makefile message
  if and only if one of type \<open>make\<close> was found; and one message with the number of
  dependencies if and only if there is one.  The other build-system types (\<open>gradle\<close>,
  \<open>maven\<close>, \<open>npm\<close>, \<open>cargo\<close>, \<open>go_modules\<close>) get no message.
\<close>

theorem generateRecommendations_messages:
  "generateRecommendations s results =
     (if Issues results = [] then [msg_clean]
      else [msg_found (int (length (Issues results)))]
           @ (if \<exists>i \<in> set (Issues results). Severity i = ''high''
              then [msg_high (high_count results)] else []))
     @ (if has_system results ''cmake'' then [msg_cmake] else [])
     @ (if has_system results ''make'' then [msg_make] else [])
     @ (if Dependencies results \<noteq> [] then [msg_deps (int (length (Dependencies results)))]
        else [])"
proof -
  have h: "(0 < int (length (filter (\<lambda>i. Severity i = ''high'') (Issues results))))
      = (\<exists>i \<in> set (Issues results). Severity i = ''high'')"
    by (simp add: filter_empty_conv)
  show ?thesis
    unfolding generateRecommendations_def Let_def count_high_eq map_bool_mark_systems
      has_system_def high_count_def
    by (auto simp: h map_bool_def filter_empty_conv)
qed

theorem generateRecommendations_messages_witness:
  "generateRecommendations (New ''proj'' Map.empty)
     \<lparr> TotalFiles = 1, ScannedFiles = 1,
       Issues = [\<lparr> File = ''a.c'', Line = 1, Category = ''inline_assembly'',
                   Pattern = ''asm'', MatchedText = ''asm('', Severity = ''high'',
                   Suggestion = [] \<rparr>],
       Dependencies = [\<lparr> Name = ''numpy'', Version = ''*'', Type = ''python'',
                         ARMCompatible = ''unknown'' \<rparr>],
       BuildSystems = [\<lparr> bs_File = ''Makefile'', bs_System = ''make'', NeedsReview = True \<rparr>,
                       \<lparr> bs_File = ''pom.xml'', bs_System = ''maven'', NeedsReview = True \<rparr>],
       Recommendations = [], ScanTime = 0 \<rparr>
   = [msg_found 1, msg_high 1, msg_make, msg_deps 1]"
  by (simp add: generateRecommendations_messages has_system_def high_count_def)

text \<open>A tree whose only build file is \<open>sub/pom.xml\<close>: the report lists one build system,
  of type \<open>maven\<close>, and the only recommendation is the clean-scan message.\<close>

theorem maven_gets_no_message:
  "map_option BuildSystems (fst (Scan (New ''proj'' Map.empty) (world_of tree_maven)))
     = Some [\<lparr> bs_File = ''sub/pom.xml'', bs_System = ''maven'', NeedsReview = True \<rparr>] \<and>
   map_option Recommendations (fst (Scan (New ''proj'' Map.empty) (world_of tree_maven)))
     = Some [msg_clean]"
proof -
  let ?t = "New ''proj'' Map.empty" and ?w = "world_of tree_maven"
  have g: "getSourceFiles ?t ?w = ([], None)"
    by code_simp
  have b: "fst (scanBuildSystems ?t ?w)
     = [\<lparr> bs_File = ''sub/pom.xml'', bs_System = ''maven'', NeedsReview = True \<rparr>]"
    by code_simp
  have d: "fst (scanDependencies ?t ?w) = []"
    by code_simp
  from Scan_report [OF g] obtain r where
    r: "Scan ?t ?w = (Some r, None)"
    and i: "Issues r = concat (map (\<lambda>f. fst (scanFile ?t ?w f)) (filter (scanned_ok ?t ?w) []))"
    and bs: "BuildSystems r = fst (scanBuildSystems ?t ?w)"
    and ds: "Dependencies r = fst (scanDependencies ?t ?w)"
    and rc: "Recommendations r = generateRecommendations ?t r"
    by blast
  from i have i': "Issues r = []" by simp
  have "generateRecommendations ?t r = [msg_clean]"
    unfolding generateRecommendations_def Let_def count_high_eq map_bool_mark_systems
    by (simp add: i' bs b ds d map_bool_def)
  with r bs b rc show ?thesis by simp
qed



section \<open>The Python manifest\<close>

subsection \<open>White space at the ends of a string\<close>

definition trimmed :: "string \<Rightarrow> bool" where
  "trimmed s = (space_prefix s = 0 \<and> space_suffix s = 0)"

text \<open>A name or a version as it stands in a requirement: no white space at either end
  and no equals sign.\<close>

definition token :: "string \<Rightarrow> bool" where
  "token s = (trimmed s \<and> CHR ''='' \<notin> set s)"

lemma space_runes_not_Nil: "r \<in> set space_runes \<Longrightarrow> r \<noteq> []"
  by (auto simp: space_runes_def)

lemma space_prefix_0_iff: "space_prefix s = 0 \<longleftrightarrow> (\<forall>r \<in> set space_runes. \<not> HasPrefix s r)"
proof (cases "find (HasPrefix s) space_runes")
  case None
  then have "\<forall>r \<in> set space_runes. \<not> HasPrefix s r"
    by (simp add: find_None_iff)
  moreover have "space_prefix s = 0"
    by (simp add: space_prefix_def None)
  ultimately show ?thesis by simp
next
  case (Some r)
  then have "r \<in> set space_runes" "HasPrefix s r"
    by (auto simp: find_Some_iff)
  with Some show ?thesis
    by (auto simp: space_prefix_def dest: space_runes_not_Nil)
qed

lemma space_suffix_0_iff: "space_suffix s = 0 \<longleftrightarrow> (\<forall>r \<in> set space_runes. \<not> HasSuffix s r)"
proof (cases "find (HasSuffix s) space_runes")
  case None
  then have "\<forall>r \<in> set space_runes. \<not> HasSuffix s r"
    by (simp add: find_None_iff)
  moreover have "space_suffix s = 0"
    by (simp add: space_suffix_def None)
  ultimately show ?thesis by simp
next
  case (Some r)
  then have "r \<in> set space_runes" "HasSuffix s r"
    by (auto simp: find_Some_iff)
  with Some show ?thesis
    by (auto simp: space_suffix_def dest: space_runes_not_Nil)
qed

lemma HasPrefix_append_byte:
  assumes "HasPrefix (a @ c # b) r" "c \<notin> set r"
  shows "HasPrefix a r"
proof (cases "length r \<le> length a")
  case True
  with assms(1) show ?thesis by (simp add: HasPrefix_def)
next
  case False
  then have "take (length r) (a @ c # b) = a @ c # take (length r - Suc (length a)) b"
    by (simp add: take_Cons')
  with assms(1) have "r = a @ c # take (length r - Suc (length a)) b"
    by (simp add: HasPrefix_def)
  then have "c \<in> set r"
    by (metis in_set_conv_decomp)
  with assms(2) show ?thesis by simp
qed

lemma HasSuffix_rev: "HasSuffix s p = HasPrefix (rev s) (rev p)"
proof -
  have "take (length (rev p)) (rev s) = rev (drop (length s - length p) s)"
    by (simp add: take_rev)
  then have "HasPrefix (rev s) (rev p) = (drop (length s - length p) s = p)"
    by (simp add: HasPrefix_def)
  moreover have "length p \<le> length s" if "drop (length s - length p) s = p"
  proof -
    have "length (drop (length s - length p) s) \<le> length s" by simp
    with that show ?thesis by simp
  qed
  ultimately show ?thesis
    by (auto simp: HasSuffix_def)
qed

lemma HasSuffix_append_byte:
  assumes "HasSuffix (a @ c # b) r" "c \<notin> set r"
  shows "HasSuffix b r"
  using assms HasPrefix_append_byte [of "rev b" c "rev a" "rev r"]
  by (simp add: HasSuffix_rev)

lemma space_prefix_append:
  "space_prefix a = 0 \<Longrightarrow> c \<notin> set (concat space_runes) \<Longrightarrow> space_prefix (a @ c # b) = 0"
  unfolding space_prefix_0_iff by (auto dest: HasPrefix_append_byte)

lemma space_suffix_append:
  "space_suffix b = 0 \<Longrightarrow> c \<notin> set (concat space_runes) \<Longrightarrow> space_suffix (a @ c # b) = 0"
  unfolding space_suffix_0_iff by (auto dest: HasSuffix_append_byte)

lemma TrimSpace_trimmed: "trimmed s \<Longrightarrow> TrimSpace s = s"
  by (simp add: trimmed_def TrimSpace_def TrimLeftSpace.simps TrimRightSpace.simps)

lemma eq_not_space: "CHR ''='' \<notin> set (concat space_runes)"
  by (simp add: space_runes_def)

lemma gt_not_space: "CHR ''>'' \<notin> set (concat space_runes)"
  by (simp add: space_runes_def)

lemma hash_not_space: "CHR ''#'' \<notin> set (concat space_runes)"
  by (simp add: space_runes_def)

lemma trimmed_join:
  assumes "trimmed a" "trimmed b" "c \<notin> set (concat space_runes)" "d \<notin> set (concat space_runes)"
  shows "trimmed (a @ c # d # b)"
proof -
  have "space_prefix (a @ c # d # b) = 0"
    using assms by (simp add: trimmed_def space_prefix_append)
  moreover have "space_suffix ((a @ [c]) @ d # b) = 0"
    using assms by (intro space_suffix_append) (simp_all add: trimmed_def)
  ultimately show ?thesis by (simp add: trimmed_def)
qed

subsection \<open>Finding and splitting at a two-byte separator\<close>

lemma HasPrefix_Cons2: "HasPrefix (x # xs) [c1, c2] = (x = c1 \<and> xs \<noteq> [] \<and> hd xs = c2)"
  by (cases xs) (auto simp: HasPrefix_def)

lemma HasPrefix_single: "HasPrefix s [c] = (s \<noteq> [] \<and> hd s = c)"
  by (cases s) (auto simp: HasPrefix_def)

lemma Index_notin: "c2 \<notin> set s \<Longrightarrow> Index s [c1, c2] = None"
proof (induction s)
  case Nil
  then show ?case by simp
next
  case (Cons x xs)
  then have "\<not> HasPrefix (x # xs) [c1, c2]"
    by (cases xs) (auto simp: HasPrefix_Cons2)
  with Cons show ?case by simp
qed

lemma Index_sep2: "c2 \<notin> set a \<Longrightarrow> Index (a @ c1 # c2 # b) [c1, c2] = Some (length a)"
proof (induction a)
  case Nil
  then show ?case by (simp add: HasPrefix_Cons2)
next
  case (Cons x xs)
  then have "\<not> HasPrefix (x # xs @ c1 # c2 # b) [c1, c2]"
    by (cases xs) (auto simp: HasPrefix_Cons2)
  with Cons show ?case by simp
qed

lemma Index_double_absent:
  "c \<notin> set a \<Longrightarrow> c \<notin> set b \<Longrightarrow> d \<noteq> c \<Longrightarrow> Index (a @ d # c # b) [c, c] = None"
proof (induction a)
  case Nil
  then have "\<not> HasPrefix (c # b) [c, c]"
    by (cases b) (auto simp: HasPrefix_Cons2)
  with Nil show ?case by (simp add: HasPrefix_Cons2 Index_notin)
next
  case (Cons x xs)
  then have "\<not> HasPrefix (x # xs @ d # c # b) [c, c]"
    by (auto simp: HasPrefix_Cons2)
  with Cons show ?case by simp
qed

lemma Split_sep2:
  assumes "c2 \<notin> set a" "c2 \<notin> set b"
  shows "Split (a @ c1 # c2 # b) [c1, c2] = [a, b]"
proof -
  have "Split b [c1, c2] = [b]"
    using assms(2) by (subst Split.simps) (simp add: Index_notin)
  then show ?thesis
    using assms(1) by (subst Split.simps) (simp add: Index_sep2)
qed


subsection \<open>Lines of a requirements file\<close>

lemma python_loop_eq: "python_loop ls deps = deps @ List.map_filter python_line ls"
  by (induction ls arbitrary: deps) (simp_all add: map_filter_simps split: option.splits)

lemma space_prefix_blank:
  "c = CHR '' '' \<or> c = CHR 0x09 \<Longrightarrow> space_prefix (c # s) = 1"
proof (elim disjE)
  assume "c = CHR '' ''"
  then show ?thesis by (simp add: space_prefix_def space_runes_def HasPrefix_def)
next
  assume "c = CHR 0x09"
  then show ?thesis by (simp add: space_prefix_def space_runes_def HasPrefix_def)
qed

lemma TrimLeftSpace_blanks:
  "set ws \<subseteq> {CHR '' '', CHR 0x09} \<Longrightarrow> TrimLeftSpace (ws @ s) = TrimLeftSpace s"
proof (induction ws)
  case Nil
  then show ?case by simp
next
  case (Cons c ws)
  then have "space_prefix (c # ws @ s) = 1"
    by (intro space_prefix_blank) auto
  then have "TrimLeftSpace ((c # ws) @ s) = TrimLeftSpace (ws @ s)"
    by (subst TrimLeftSpace.simps) simp
  with Cons show ?case by simp
qed

lemma TrimSpace_Nil: "TrimSpace [] = []"
  by code_simp

lemma TrimRightSpace_keeps_head:
  "c \<notin> set (concat space_runes) \<Longrightarrow> \<exists>t. TrimRightSpace (c # s) = c # t"
proof (induction "length s" arbitrary: s rule: less_induct)
  case less
  show ?case
  proof (cases "space_suffix (c # s) = 0")
    case True
    then show ?thesis by (subst TrimRightSpace.simps) simp
  next
    case False
    then obtain r where r: "find (HasSuffix (c # s)) space_runes = Some r"
      by (auto simp: space_suffix_def split: option.splits)
    then have rs: "r \<in> set space_runes" "HasSuffix (c # s) r"
      by (auto simp: find_Some_iff)
    with less.prems have "c \<notin> set r" by auto
    with rs(2) have "HasSuffix s r"
      using HasSuffix_append_byte [of "[]" c s r] by simp
    then have le: "length r \<le> length s" by (simp add: HasSuffix_def)
    from rs(1) have pos: "0 < length r" by (auto dest: space_runes_not_Nil)
    from r have n: "space_suffix (c # s) = length r" by (simp add: space_suffix_def)
    have tk: "take (length (c # s) - length r) (c # s) = c # take (length s - length r) s"
      using le by (simp add: take_Cons' Suc_diff_le)
    have "length (take (length s - length r) s) < length s"
      using le pos by (simp del: length_greater_0_conv)
    from less.hyps [OF this less.prems] obtain t
      where "TrimRightSpace (c # take (length s - length r) s) = c # t" by blast
    then show ?thesis
      using False n tk by (subst TrimRightSpace.simps) simp
  qed
qed

lemma python_line_blank:
  assumes "set ws \<subseteq> {CHR '' '', CHR 0x09}"
  shows "python_line ws = None"
proof -
  have "TrimLeftSpace (ws @ []) = TrimLeftSpace []"
    using assms by (rule TrimLeftSpace_blanks)
  then have "TrimSpace ws = TrimSpace []"
    by (simp add: TrimSpace_def)
  then show ?thesis by (simp add: python_line_def TrimSpace_Nil)
qed

lemma python_line_comment:
  assumes "set ws \<subseteq> {CHR '' '', CHR 0x09}"
  shows "python_line (ws @ ''#'' @ text) = None"
proof -
  have "space_prefix [] = 0"
    by code_simp
  then have "space_prefix ([] @ CHR ''#'' # text) = 0"
    using hash_not_space by (rule space_prefix_append)
  then have "TrimLeftSpace (CHR ''#'' # text) = CHR ''#'' # text"
    by (subst TrimLeftSpace.simps) simp
  with TrimLeftSpace_blanks [OF assms, of "CHR ''#'' # text"]
  have "TrimSpace (ws @ ''#'' @ text) = TrimRightSpace (CHR ''#'' # text)"
    by (simp add: TrimSpace_def)
  moreover obtain t where "TrimRightSpace (CHR ''#'' # text) = CHR ''#'' # t"
    using TrimRightSpace_keeps_head [OF hash_not_space] by blast
  ultimately show ?thesis
    by (simp add: python_line_def HasPrefix_single)
qed

lemma python_line_pin:
  assumes "token name" "token version" "\<not> HasPrefix name ''#''"
  shows "python_line (name @ ''=='' @ version)
     = Some \<lparr> Name = name, Version = version, Type = ''python'', ARMCompatible = ''unknown'' \<rparr>"
proof -
  let ?line = "name @ CHR ''='' # CHR ''='' # version"
  from assms have n: "CHR ''='' \<notin> set name" and v: "CHR ''='' \<notin> set version"
    and tn: "trimmed name" and tv: "trimmed version"
    by (simp_all add: token_def)
  have "trimmed ?line"
    by (rule trimmed_join [OF tn tv eq_not_space eq_not_space])
  then have line: "TrimSpace ?line = ?line" by (rule TrimSpace_trimmed)
  have hash: "\<not> HasPrefix ?line ''#''"
    using assms(3) by (cases name) (simp_all add: HasPrefix_single)
  have c: "Contains ?line ''==''"
    using n by (simp add: Contains_def Index_sep2)
  have sp: "Split ?line ''=='' = [name, version]"
    using n v by (rule Split_sep2)
  show ?thesis
    using line hash c
    by (simp add: python_line_def sp TrimSpace_trimmed tn tv)
qed

lemma python_line_lower_bound:
  assumes "token name" "token version" "\<not> HasPrefix name ''#''"
  shows "python_line (name @ ''>='' @ version)
     = Some \<lparr> Name = name, Version = ''>='' @ version, Type = ''python'',
              ARMCompatible = ''unknown'' \<rparr>"
proof -
  let ?line = "name @ CHR ''>'' # CHR ''='' # version"
  from assms have n: "CHR ''='' \<notin> set name" and v: "CHR ''='' \<notin> set version"
    and tn: "trimmed name" and tv: "trimmed version"
    by (simp_all add: token_def)
  have "trimmed ?line"
    by (rule trimmed_join [OF tn tv gt_not_space eq_not_space])
  then have line: "TrimSpace ?line = ?line" by (rule TrimSpace_trimmed)
  have hash: "\<not> HasPrefix ?line ''#''"
    using assms(3) by (cases name) (simp_all add: HasPrefix_single)
  have nc: "\<not> Contains ?line ''==''"
    using n v by (simp add: Contains_def Index_double_absent)
  have c: "Contains ?line ''>=''"
    using n by (simp add: Contains_def Index_sep2)
  have sp: "Split ?line ''>='' = [name, version]"
    using n v by (rule Split_sep2)
  show ?thesis
    using line hash c nc
    by (simp add: python_line_def sp TrimSpace_trimmed tn tv)
qed

lemma python_line_bare:
  assumes "token name" "name \<noteq> []" "\<not> HasPrefix name ''#''"
  shows "python_line name
     = Some \<lparr> Name = name, Version = ''*'', Type = ''python'', ARMCompatible = ''unknown'' \<rparr>"
proof -
  from assms have n: "CHR ''='' \<notin> set name" and tn: "trimmed name"
    by (simp_all add: token_def)
  have "\<not> Contains name ''==''" "\<not> Contains name ''>=''"
    using n by (simp_all add: Contains_def Index_notin)
  with assms(2,3) show ?thesis
    by (simp add: python_line_def TrimSpace_trimmed tn)
qed

lemma token_numpy: "token ''numpy''" "token ''1.21.0''" "\<not> HasPrefix ''numpy'' ''#''"
  by code_simp+

text \<open>
  Claim C6.  \<open>scanPythonDependencies\<close> maps the lines of a readable
  \<open>requirements.txt\<close> one by one and in order, each to no dependency or to one.  A line
  of blanks and a line whose first byte after blanks is \<open>#\<close> give none.  For a name and
  a version that are tokens (no white space at the ends, no equals sign) and a name
  that does not begin with \<open>#\<close>: the line \<open>name==version\<close> gives the dependency with
  that name and version, \<open>name>=version\<close> the one whose version is \<open>>=\<close> followed by
  the version, and the bare name the one with version \<open>*\<close>; all with type
  \<open>python\<close> and compatibility \<open>unknown\<close>.  In particular \<open>numpy==1.21.0\<close> gives
  \<open>numpy\<close>, \<open>1.21.0\<close>, \<open>python\<close>, \<open>unknown\<close>.
\<close>

theorem scanPythonDependencies_lines:
  "(os_Open w [''requirements.txt''] = Lines ls None \<longrightarrow>
      scanPythonDependencies s w = (List.map_filter python_line ls, None)) \<and>
   (set ws \<subseteq> {CHR '' '', CHR 0x09} \<longrightarrow>
      python_line ws = None \<and> python_line (ws @ ''#'' @ comment) = None) \<and>
   (token name \<and> token version \<and> \<not> HasPrefix name ''#'' \<longrightarrow>
      python_line (name @ ''=='' @ version)
        = Some \<lparr> Name = name, Version = version, Type = ''python'',
                 ARMCompatible = ''unknown'' \<rparr> \<and>
      python_line (name @ ''>='' @ version)
        = Some \<lparr> Name = name, Version = ''>='' @ version, Type = ''python'',
                 ARMCompatible = ''unknown'' \<rparr>) \<and>
   (token name \<and> name \<noteq> [] \<and> \<not> HasPrefix name ''#'' \<longrightarrow>
      python_line name
        = Some \<lparr> Name = name, Version = ''*'', Type = ''python'',
                 ARMCompatible = ''unknown'' \<rparr>) \<and>
   python_line ''numpy==1.21.0''
     = Some \<lparr> Name = ''numpy'', Version = ''1.21.0'', Type = ''python'',
              ARMCompatible = ''unknown'' \<rparr>"
proof (intro conjI impI)
  assume "os_Open w [''requirements.txt''] = Lines ls None"
  then show "scanPythonDependencies s w = (List.map_filter python_line ls, None)"
    by (simp add: scanPythonDependencies_def python_loop_eq)
next
  assume "set ws \<subseteq> {CHR '' '', CHR 0x09}"
  then show "python_line ws = None" by (rule python_line_blank)
next
  assume "set ws \<subseteq> {CHR '' '', CHR 0x09}"
  then show "python_line (ws @ ''#'' @ comment) = None" by (rule python_line_comment)
next
  assume "token name \<and> token version \<and> \<not> HasPrefix name ''#''"
  then show "python_line (name @ ''=='' @ version)
        = Some \<lparr> Name = name, Version = version, Type = ''python'',
                 ARMCompatible = ''unknown'' \<rparr>"
    by (intro python_line_pin) simp_all
next
  assume "token name \<and> token version \<and> \<not> HasPrefix name ''#''"
  then show "python_line (name @ ''>='' @ version)
        = Some \<lparr> Name = name, Version = ''>='' @ version, Type = ''python'',
                 ARMCompatible = ''unknown'' \<rparr>"
    by (intro python_line_lower_bound) simp_all
next
  assume "token name \<and> name \<noteq> [] \<and> \<not> HasPrefix name ''#''"
  then show "python_line name
        = Some \<lparr> Name = name, Version = ''*'', Type = ''python'',
                 ARMCompatible = ''unknown'' \<rparr>"
    by (intro python_line_bare) simp_all
next
  show "python_line ''numpy==1.21.0''
     = Some \<lparr> Name = ''numpy'', Version = ''1.21.0'', Type = ''python'',
              ARMCompatible = ''unknown'' \<rparr>"
    using python_line_pin [OF token_numpy] by simp
qed

theorem scanPythonDependencies_lines_witness:
  "scanPythonDependencies (New ''proj'' Map.empty) (world_of tree_requirements)
     = ([\<lparr> Name = ''numpy'', Version = ''1.21.0'', Type = ''python'', ARMCompatible = ''unknown'' \<rparr>,
         \<lparr> Name = ''flask'', Version = ''>=2.0'', Type = ''python'', ARMCompatible = ''unknown'' \<rparr>,
         \<lparr> Name = ''requests'', Version = ''*'', Type = ''python'', ARMCompatible = ''unknown'' \<rparr>],
        None) \<and>
   python_line ''  '' = None \<and>
   python_line ''  # pinned'' = None \<and>
   python_line ''flask==2.0''
     = Some \<lparr> Name = ''flask'', Version = ''2.0'', Type = ''python'', ARMCompatible = ''unknown'' \<rparr> \<and>
   python_line ''flask>=2.0''
     = Some \<lparr> Name = ''flask'', Version = ''>=2.0'', Type = ''python'', ARMCompatible = ''unknown'' \<rparr> \<and>
   python_line ''flask''
     = Some \<lparr> Name = ''flask'', Version = ''*'', Type = ''python'', ARMCompatible = ''unknown'' \<rparr>"
proof -
  let ?ls = "[''numpy==1.21.0'', ''  # pinned'', [], ''flask>=2.0'', ''requests'']"
  have o: "os_Open (world_of tree_requirements) [''requirements.txt''] = Lines ?ls None"
    by code_simp
  have m: "List.map_filter python_line ?ls
     = [\<lparr> Name = ''numpy'', Version = ''1.21.0'', Type = ''python'', ARMCompatible = ''unknown'' \<rparr>,
        \<lparr> Name = ''flask'', Version = ''>=2.0'', Type = ''python'', ARMCompatible = ''unknown'' \<rparr>,
        \<lparr> Name = ''requests'', Version = ''*'', Type = ''python'', ARMCompatible = ''unknown'' \<rparr>]"
    by code_simp
  have b: "set ''  '' \<subseteq> {CHR '' '', CHR 0x09}"
    by simp
  have t: "token ''flask''" "token ''2.0''" "\<not> HasPrefix ''flask'' ''#''" "''flask'' \<noteq> []"
    by code_simp+
  from scanPythonDependencies_lines [where w = "world_of tree_requirements" and ls = "?ls"
      and s = "New ''proj'' Map.empty" and ws = "''  ''" and comment = "'' pinned''"
      and name = "''flask''" and version = "''2.0''"] o b t
  show ?thesis unfolding m by simp
qed


end
